theory Spec2Isabelle
  imports Main
begin

section \<open>Python values, exceptions and widgets\<close>

text \<open>
  The containers of \<^verbatim>\<open>widget_box.py\<close> and \<^verbatim>\<open>widget_selectioncontainer.py\<close> are
  dynamically typed: a title may be any Python object, and so may an item of the sequence
  handed to \<^verbatim>\<open>iter_capture\<close>. The values the methods inspect are modelled by
  \<open>pyval\<close>; \<open>PObj\<close> is an opaque object known by its identity (a layout, for
  instance).
\<close>

datatype pyval = PNone | PBool bool | PInt int | PStr string | PObj nat

text \<open>Python's truth value of an object, as tested by \<^verbatim>\<open>if title:\<close>.\<close>

fun truthy :: "pyval \<Rightarrow> bool" where
  "truthy PNone = False"
| "truthy (PBool b) = b"
| "truthy (PInt i) = (i \<noteq> 0)"
| "truthy (PStr s) = (s \<noteq> [])"
| "truthy (PObj k) = True"

text \<open>
  Exceptions, by class. \<open>TraitError\<close> carries its message, \<open>NameError\<close> the name
  that is not bound.
\<close>

datatype exn =
    StopIteration
  | KeyboardInterrupt
  | GeneratorExit
  | TraitError string
  | NameError string
  | OtherError string

text \<open>Keyword arguments (\<^verbatim>\<open>**kw\<close>): a dictionary in insertion order.\<close>

type_synonym kwargs = "(string \<times> pyval) list"

text \<open>
  A widget is an object: \<open>Output k kw\<close> is the output-capturing widget with identity
  \<open>k\<close> built by \<^verbatim>\<open>Output(**kw)\<close>, \<open>Widget k\<close> any other widget.
\<close>

datatype widget = Output nat kwargs | Widget nat

fun widget_id :: "widget \<Rightarrow> nat" where
  "widget_id (Output k kw) = k"
| "widget_id (Widget k) = k"

text \<open>
  What a method does to the outside, in order: an assignment to a trait attribute
  (\<^verbatim>\<open>self.children = ...\<close>, which is what the front end observes) and an explicit
  \<^verbatim>\<open>self.send_state(name)\<close>.
\<close>

datatype event = SetAttr string | SendState string

section \<open>Decimal strings\<close>

text \<open>\<^verbatim>\<open>unicode_type(int(index))\<close>: the decimal form of an integer.\<close>

definition digit_char :: "nat \<Rightarrow> char" where
  "digit_char d = char_of (48 + d)"

fun str_of_nat :: "nat \<Rightarrow> string" where
  "str_of_nat n =
     (if n < 10 then [digit_char n] else str_of_nat (n div 10) @ [digit_char (n mod 10)])"

declare str_of_nat.simps [simp del]

definition str_of_int :: "int \<Rightarrow> string" where
  "str_of_int i = (if i < 0 then CHR ''-'' # str_of_nat (nat (- i)) else str_of_nat (nat i))"

text \<open>\<^verbatim>\<open>str(x)\<close>, as used by the f-string \<^verbatim>\<open>f"n{x}"\<close>.\<close>

fun py_str :: "pyval \<Rightarrow> string" where
  "py_str PNone = ''None''"
| "py_str (PBool b) = (if b then ''True'' else ''False'')"
| "py_str (PInt i) = str_of_int i"
| "py_str (PStr s) = s"
| "py_str (PObj k) = ''<object>''"

section \<open>The containers\<close>

text \<open>
  \<^verbatim>\<open>Box\<close>: the tuple of children. The record also holds the part of the interpreter
  state that the methods touch: \<open>trace\<close>, the events so far; \<open>capturing\<close>, the output
  widgets that redirect output at the moment, innermost first; \<open>fresh\<close>, the identity
  the next new object gets.
\<close>

record box =
  children :: "widget list"
  trace :: "event list"
  capturing :: "nat list"
  fresh :: nat

text \<open>\<^verbatim>\<open>_SelectionContainer(Box)\<close>: \<^verbatim>\<open>_titles\<close> and \<^verbatim>\<open>selected_index\<close>.\<close>

record selection_container = box +
  titles :: "string \<rightharpoonup> pyval"
  selected_index :: "int option"

text \<open>
  \<^verbatim>\<open>Carousel(Box)\<close>: an instance has the fields of a \<^verbatim>\<open>Box\<close>. The attributes
  \<^verbatim>\<open>layout\<close> and \<^verbatim>\<open>output_layout\<close> belong to the class: they are assigned in the
  class body.
\<close>

type_synonym carousel = box

record carousel_class =
  layout :: pyval
  output_layout :: pyval

text \<open>A method returns normally (\<open>Inr\<close>) or raises (\<open>Inl\<close>); the state comes back in both cases.\<close>

type_synonym ('a, 's) result = "(exn + 'a) \<times> 's"

subsection \<open>The output widget\<close>

text \<open>
  Modelled from the spec: the constructor of the output-capturing widget
  (\<^verbatim>\<open>widget_output.py\<close>, which is not among the sources). \<^verbatim>\<open>Output(**kw)\<close> creates
  a new output-capturing child with the given configuration.
\<close>

definition new_output :: "'a box_scheme \<Rightarrow> kwargs \<Rightarrow> widget \<times> 'a box_scheme" where
  "new_output c kw = (Output (fresh c) kw, c\<lparr>fresh := Suc (fresh c)\<rparr>)"

text \<open>
  Modelled from the spec: entering the output-capturing widget (\<^verbatim>\<open>with out:\<close>, the
  method \<^verbatim>\<open>__enter__\<close> of \<^verbatim>\<open>widget_output.py\<close>, which is not among the sources).
  From here on output produced in the scope is redirected into the widget.
\<close>

definition output_enter :: "widget \<Rightarrow> 'a box_scheme \<Rightarrow> 'a box_scheme" where
  "output_enter out c = c\<lparr>capturing := widget_id out # capturing c\<rparr>"

text \<open>
  Modelled from the spec: leaving the output-capturing widget (the method
  \<^verbatim>\<open>__exit__\<close> of \<^verbatim>\<open>widget_output.py\<close>, which is not among the sources). The
  redirection into the widget stops, on every exit path (normal return, exception, early
  break); an exception that ends the block goes on to the caller.
\<close>

definition output_exit :: "widget \<Rightarrow> 'a box_scheme \<Rightarrow> 'a box_scheme" where
  "output_exit out c = c\<lparr>capturing := remove1 (widget_id out) (capturing c)\<rparr>"

subsection \<open>\<^verbatim>\<open>Carousel\<close>\<close>

text \<open>\<^verbatim>\<open>self.children += (child,)\<close>: a new tuple is built and assigned to the trait.\<close>

definition carousel_append_item :: "carousel \<Rightarrow> widget \<Rightarrow> carousel" where
  "carousel_append_item c child =
     c\<lparr>children := children c @ [child], trace := trace c @ [SetAttr ''children'']\<rparr>"

text \<open>\<^verbatim>\<open>kw.setdefault(key, v)\<close>.\<close>

definition setdefault :: "string \<Rightarrow> pyval \<Rightarrow> kwargs \<Rightarrow> kwargs" where
  "setdefault key v kw = (case map_of kw key of None \<Rightarrow> kw @ [(key, v)] | Some u \<Rightarrow> kw)"

text \<open>
  The names bound in the module \<^verbatim>\<open>widget_box.py\<close> when the class statement of
  \<^verbatim>\<open>Carousel\<close> runs: the names of the imports (lines 11 to 18), \<^verbatim>\<open>_doc_snippets\<close>
  and the classes defined before it. A name that is neither among them nor a builtin
  raises \<^verbatim>\<open>NameError\<close> when it is read.
\<close>

definition widget_box_globals :: "string list" where
  "widget_box_globals =
     [''contextmanager'', ''register'', ''widget_serialization'', ''Widget'', ''DOMWidget'',
      ''CoreWidget'', ''Output'', ''doc_subst'', ''TypedTuple'', ''Unicode'',
      ''CaselessStrEnum'', ''Instance'', ''_doc_snippets'', ''Box'', ''VBox'', ''HBox'',
      ''GridBox'']"

definition load_global :: "string \<Rightarrow> exn + unit" where
  "load_global name =
     (if name \<in> set widget_box_globals then Inr () else Inl (NameError name))"

text \<open>
  The class body of \<^verbatim>\<open>Carousel\<close> (lines 160 to 165):
  \<^verbatim>\<open>layout = w.Layout(...)\<close>, then \<^verbatim>\<open>output_layout = w.Layout()\<close>. Each of the two
  statements reads the global name \<^verbatim>\<open>w\<close> first. Were the name bound, each call would
  build a layout object (here the opaque objects 0 and 1).
\<close>

definition carousel_class_body :: "exn + carousel_class" where
  "carousel_class_body =
     (case load_global ''w'' of
        Inl e \<Rightarrow> Inl e
      | Inr u \<Rightarrow>
          (case load_global ''w'' of
             Inl e \<Rightarrow> Inl e
           | Inr u' \<Rightarrow> Inr \<lparr>layout = PObj 0, output_layout = PObj 1\<rparr>))"

text \<open>
  \<^verbatim>\<open>Carousel.capture\<close> is a \<^verbatim>\<open>@contextmanager\<close> generator with one \<^verbatim>\<open>yield\<close>:
  \<open>carousel_capture_enter\<close> is the code up to the \<^verbatim>\<open>yield out\<close>, which runs when the
  \<^verbatim>\<open>with\<close> block is entered, and \<open>carousel_capture_exit\<close> the code after it, which
  runs when the block is left, normally or by an exception. The method is reached through
  the class, whose body has run before: \<^verbatim>\<open>self.output_layout\<close> is the attribute the
  class body assigned, and an exception of the class body comes before anything the method
  does.
\<close>

definition carousel_capture_enter :: "carousel \<Rightarrow> kwargs \<Rightarrow> (widget, carousel) result" where
  "carousel_capture_enter c kw =
     (case carousel_class_body of
        Inl e \<Rightarrow> (Inl e, c)
      | Inr cls \<Rightarrow>
          (let kw1 = setdefault ''layout'' (output_layout cls) kw;
               (out, c1) = new_output c kw1;
               c2 = carousel_append_item c1 out
           in (Inr out, output_enter out c2)))"

definition carousel_capture_exit :: "widget \<Rightarrow> carousel \<Rightarrow> carousel" where
  "carousel_capture_exit out c = output_exit out c"

text \<open>\<^verbatim>\<open>with carousel.capture(**kw) as out: body\<close>.\<close>

definition carousel_with_capture ::
  "carousel \<Rightarrow> kwargs \<Rightarrow> (widget \<Rightarrow> carousel \<Rightarrow> ('a, carousel) result) \<Rightarrow> ('a, carousel) result" where
  "carousel_with_capture c kw body =
     (case carousel_capture_enter c kw of
        (Inl e, c1) \<Rightarrow> (Inl e, c1)
      | (Inr out, c1) \<Rightarrow> (let (r, c2) = body out c1 in (r, carousel_capture_exit out c2)))"

subsection \<open>\<^verbatim>\<open>_SelectionContainer\<close>\<close>

text \<open>The validator of \<^verbatim>\<open>selected_index\<close>.\<close>

definition validated_index :: "selection_container \<Rightarrow> int option \<Rightarrow> exn + int option" where
  "validated_index c v =
     (case v of
        None \<Rightarrow> Inr None
      | Some i \<Rightarrow>
          if 0 \<le> i \<and> i < int (length (children c)) then Inr (Some i)
          else Inl (TraitError ''Invalid selection: index out of bounds''))"

text \<open>
  \<^verbatim>\<open>self.selected_index = v\<close>. The attribute is a trait of the traitlets library: the
  assignment runs the validator registered with \<^verbatim>\<open>@validate\<close> and stores what it
  returns; when the validator raises, nothing is stored and the exception goes to the
  caller.
\<close>

definition set_selected_index ::
  "selection_container \<Rightarrow> int option \<Rightarrow> (unit, selection_container) result" where
  "set_selected_index c v =
     (case validated_index c v of
        Inl e \<Rightarrow> (Inl e, c)
      | Inr v' \<Rightarrow>
          (Inr (), c\<lparr>trace := trace c @ [SetAttr ''selected_index''], selected_index := v'\<rparr>))"

text \<open>
  \<^verbatim>\<open>set_title\<close>: the title is stored in the dictionary \<^verbatim>\<open>_titles\<close> under the decimal
  string of the index, then \<^verbatim>\<open>send_state('_titles')\<close> is called. No statement of the
  method raises for an integer index.
\<close>

definition set_title :: "selection_container \<Rightarrow> int \<Rightarrow> pyval \<Rightarrow> selection_container" where
  "set_title c index title =
     c\<lparr>trace := trace c @ [SendState ''_titles''],
       titles := (titles c)(str_of_int index \<mapsto> title)\<rparr>"

text \<open>\<^verbatim>\<open>get_title\<close>: the title stored under that key, or \<^verbatim>\<open>None\<close>.\<close>

definition get_title :: "selection_container \<Rightarrow> int \<Rightarrow> pyval" where
  "get_title c index =
     (case titles c (str_of_int index) of Some t \<Rightarrow> t | None \<Rightarrow> PNone)"

text \<open>
  \<^verbatim>\<open>append_item\<close>: \<^verbatim>\<open>self.children += (child,)\<close>, then
  \<^verbatim>\<open>if title: self.set_title(len(self.children) - 1, title)\<close>, then
  \<^verbatim>\<open>if selected: self.selected_index = len(self.children) - 1\<close>.
\<close>

definition append_item ::
  "selection_container \<Rightarrow> widget \<Rightarrow> pyval \<Rightarrow> pyval \<Rightarrow> (unit, selection_container) result" where
  "append_item c child title selected =
     (let c1 = c\<lparr>children := children c @ [child], trace := trace c @ [SetAttr ''children'']\<rparr>;
          c2 = (if truthy title then set_title c1 (int (length (children c1)) - 1) title else c1)
      in if truthy selected then set_selected_index c2 (Some (int (length (children c2)) - 1))
         else (Inr (), c2))"

text \<open>
  \<^verbatim>\<open>_SelectionContainer.capture\<close>, again a \<^verbatim>\<open>@contextmanager\<close> generator:
  \<open>capture_enter\<close> is the code up to \<^verbatim>\<open>yield out\<close>, \<open>capture_exit\<close> the code after it.
\<close>

definition capture_enter ::
  "selection_container \<Rightarrow> pyval \<Rightarrow> pyval \<Rightarrow> kwargs \<Rightarrow> (widget, selection_container) result" where
  "capture_enter c title selected kw =
     (let (out, c1) = new_output c kw
      in case append_item c1 out title selected of
           (Inl e, c2) \<Rightarrow> (Inl e, c2)
         | (Inr u, c2) \<Rightarrow> (Inr out, output_enter out c2))"

definition capture_exit :: "widget \<Rightarrow> selection_container \<Rightarrow> selection_container" where
  "capture_exit out c = output_exit out c"

text \<open>\<^verbatim>\<open>with self.capture(title, selected, **kw) as out: body\<close>.\<close>

definition with_capture ::
  "selection_container \<Rightarrow> pyval \<Rightarrow> pyval \<Rightarrow> kwargs \<Rightarrow>
   (widget \<Rightarrow> selection_container \<Rightarrow> ('a, selection_container) result) \<Rightarrow>
   ('a, selection_container) result" where
  "with_capture c title selected kw body =
     (case capture_enter c title selected kw of
        (Inl e, c1) \<Rightarrow> (Inl e, c1)
      | (Inr out, c1) \<Rightarrow> (let (r, c2) = body out c1 in (r, capture_exit out c2)))"

text \<open>
  \<^verbatim>\<open>self.capture(**kw)\<close>: the keys \<^verbatim>\<open>title\<close> and \<^verbatim>\<open>selected\<close> bind the parameters of
  that name (default \<^verbatim>\<open>None\<close>), the others go on to \<^verbatim>\<open>Output\<close>.
\<close>

definition kw_get :: "kwargs \<Rightarrow> string \<Rightarrow> pyval" where
  "kw_get kw key = (case map_of kw key of None \<Rightarrow> PNone | Some v \<Rightarrow> v)"

definition kw_rest :: "kwargs \<Rightarrow> kwargs" where
  "kw_rest kw = filter (\<lambda>p. fst p \<noteq> ''title'' \<and> fst p \<noteq> ''selected'') kw"

definition capture_kw :: "selection_container \<Rightarrow> kwargs \<Rightarrow> (widget, selection_container) result" where
  "capture_kw c kw = capture_enter c (kw_get kw ''title'') (kw_get kw ''selected'') (kw_rest kw)"

subsection \<open>\<^verbatim>\<open>iter_capture\<close>\<close>

text \<open>
  The argument \<^verbatim>\<open>as_title\<close> is a callable, which may raise, or any other value.
\<close>

datatype as_title = AsValue pyval | AsCallable "pyval \<Rightarrow> exn + pyval"

text \<open>\<^verbatim>\<open>title = as_title and (as_title(i) if callable(as_title) else i)\<close>.\<close>

fun derive_title :: "as_title \<Rightarrow> pyval \<Rightarrow> exn + pyval" where
  "derive_title (AsValue v) i = (if truthy v then Inr i else Inr v)"
| "derive_title (AsCallable f) i = f i"

text \<open>
  The generator object. Its frame is \<open>Created\<close> before the first \<^verbatim>\<open>next\<close>,
  \<open>Suspended out\<close> at the \<^verbatim>\<open>yield i\<close> (inside the \<^verbatim>\<open>with\<close> block whose output widget
  is \<open>out\<close>), \<open>Finished\<close> after it returned or raised. The upstream iterator is the list
  of what its \<^verbatim>\<open>next\<close> calls will do: give an item or raise.
\<close>

datatype frame = Created | Suspended widget | Finished

record gen =
  frame :: frame
  upstream :: "(exn + pyval) list"
  title_arg :: as_title
  kw_arg :: kwargs

definition iter_capture :: "(exn + pyval) list \<Rightarrow> as_title \<Rightarrow> kwargs \<Rightarrow> gen" where
  "iter_capture items a kw = \<lparr>frame = Created, upstream = items, title_arg = a, kw_arg = kw\<rparr>"

text \<open>
  \<^verbatim>\<open>next(items)\<close> on \<^verbatim>\<open>items = (x for x in items)\<close>: an exhausted iterator raises
  \<^verbatim>\<open>StopIteration\<close>; an exception of the upstream passes through the generator
  expression, which is finished afterwards.
\<close>

fun next_item :: "(exn + pyval) list \<Rightarrow> (exn + pyval) \<times> (exn + pyval) list" where
  "next_item [] = (Inl StopIteration, [])"
| "next_item (Inr x # rest) = (Inr x, rest)"
| "next_item (Inl e # rest) = (Inl e, [])"

text \<open>What a consumer gets from \<^verbatim>\<open>next\<close>, \<^verbatim>\<open>throw\<close>: an item, the end of the stream, or an exception.\<close>

datatype outcome = Yield pyval | Stop | Raise exn

text \<open>
  An exception \<open>e\<close> inside the \<^verbatim>\<open>try\<close> block: \<^verbatim>\<open>StopIteration\<close> and
  \<^verbatim>\<open>KeyboardInterrupt\<close> are caught and \<^verbatim>\<open>break\<close> leaves the loop through the
  \<^verbatim>\<open>with\<close> block, so the generator returns; any other exception leaves the
  \<^verbatim>\<open>with\<close> block and the generator.
\<close>

definition handle_exn ::
  "widget \<Rightarrow> exn \<Rightarrow> gen \<Rightarrow> selection_container \<Rightarrow> outcome \<times> gen \<times> selection_container" where
  "handle_exn out e g c =
     (if e = StopIteration \<or> e = KeyboardInterrupt
      then (Stop, g\<lparr>frame := Finished\<rparr>, capture_exit out c)
      else (Raise e, g\<lparr>frame := Finished\<rparr>, capture_exit out c))"

text \<open>One pass of \<^verbatim>\<open>while True:\<close> from the head of the loop to the \<^verbatim>\<open>yield\<close> or out of the generator.\<close>

definition iteration :: "gen \<Rightarrow> selection_container \<Rightarrow> outcome \<times> gen \<times> selection_container" where
  "iteration g c =
     (case capture_kw c (kw_arg g) of
        (Inl e, c1) \<Rightarrow> (Raise e, g\<lparr>frame := Finished\<rparr>, c1)
      | (Inr out, c1) \<Rightarrow>
          (case next_item (upstream g) of
             (Inl e, rest) \<Rightarrow> handle_exn out e (g\<lparr>upstream := rest\<rparr>) c1
           | (Inr i, rest) \<Rightarrow>
               (case derive_title (title_arg g) i of
                  Inl e \<Rightarrow> handle_exn out e (g\<lparr>upstream := rest\<rparr>) c1
                | Inr title \<Rightarrow>
                    (Yield i, g\<lparr>frame := Suspended out, upstream := rest\<rparr>,
                     if truthy title then set_title c1 (int (length (children c1)) - 1) title
                     else c1))))"

text \<open>
  \<^verbatim>\<open>next(g)\<close>. Resumed at the \<^verbatim>\<open>yield\<close>, the generator leaves the \<^verbatim>\<open>try\<close> and the
  \<^verbatim>\<open>with\<close> block and starts the next pass.
\<close>

definition iter_capture_next :: "gen \<Rightarrow> selection_container \<Rightarrow> outcome \<times> gen \<times> selection_container" where
  "iter_capture_next g c =
     (case frame g of
        Created \<Rightarrow> iteration g c
      | Suspended out \<Rightarrow> iteration g (capture_exit out c)
      | Finished \<Rightarrow> (Stop, g, c))"

text \<open>
  \<^verbatim>\<open>g.throw(e)\<close>: the exception is raised at the \<^verbatim>\<open>yield\<close> where the generator is
  suspended. When the generator returns instead of yielding, the caller of \<^verbatim>\<open>throw\<close>
  sees the end of the stream.
\<close>

definition iter_capture_throw ::
  "gen \<Rightarrow> exn \<Rightarrow> selection_container \<Rightarrow> outcome \<times> gen \<times> selection_container" where
  "iter_capture_throw g e c =
     (case frame g of
        Created \<Rightarrow> (Raise e, g\<lparr>frame := Finished\<rparr>, c)
      | Suspended out \<Rightarrow> handle_exn out e g c
      | Finished \<Rightarrow> (Raise e, g, c))"

text \<open>
  \<^verbatim>\<open>g.close()\<close>, which also runs when a suspended generator is dropped (a
  \<^verbatim>\<open>break\<close> in the consumer's loop): \<^verbatim>\<open>GeneratorExit\<close> is raised at the
  \<^verbatim>\<open>yield\<close>; no handler catches it, the \<^verbatim>\<open>with\<close> block is left, and
  \<^verbatim>\<open>close\<close> returns.
\<close>

definition iter_capture_close :: "gen \<Rightarrow> selection_container \<Rightarrow> gen \<times> selection_container" where
  "iter_capture_close g c =
     (case frame g of
        Created \<Rightarrow> (g\<lparr>frame := Finished\<rparr>, c)
      | Suspended out \<Rightarrow> (g\<lparr>frame := Finished\<rparr>, capture_exit out c)
      | Finished \<Rightarrow> (g, c))"

text \<open>
  Consuming the generator to its end, as \<^verbatim>\<open>for i in g: pass\<close> or \<^verbatim>\<open>list(g)\<close> does:
  \<^verbatim>\<open>next\<close> is called until the stream ends or an exception comes out. The result holds
  the items yielded, in order, and how the loop ended. The loop terminates because every
  \<^verbatim>\<open>next\<close> that yields takes one item from the upstream.
\<close>

definition pending :: "gen \<Rightarrow> nat" where
  "pending g = (case frame g of Finished \<Rightarrow> 0 | _ \<Rightarrow> Suc (length (upstream g)))"

function consume ::
  "gen \<Rightarrow> selection_container \<Rightarrow> pyval list \<times> (exn + unit) \<times> gen \<times> selection_container" where
  "consume g c =
     (case iter_capture_next g c of
        (Yield i, g', c') \<Rightarrow> (case consume g' c' of (ys, r) \<Rightarrow> (i # ys, r))
      | (Stop, g', c') \<Rightarrow> ([], Inr (), g', c')
      | (Raise e, g', c') \<Rightarrow> ([], Inl e, g', c'))"
  by pat_completeness auto
termination
proof (relation "measure (\<lambda>(g, c). pending g)", goal_cases)
  case 1
  show ?case by simp
next
  case (2 g c x y i g' c')
  have it: "length (upstream h') < length (upstream h) \<and> frame h' \<noteq> Finished"
    if "iteration h d = (Yield i, h', d')" for h d h' d'
  proof (cases "upstream h" rule: next_item.cases)
    case 1
    with that show ?thesis
      by (simp add: iteration_def handle_exn_def split: prod.splits sum.splits if_splits)
  next
    case (2 x rest)
    with that show ?thesis
      by (auto simp: iteration_def handle_exn_def split: prod.splits sum.splits if_splits)
  next
    case (3 e rest)
    with that show ?thesis
      by (simp add: iteration_def handle_exn_def split: prod.splits sum.splits if_splits)
  qed
  from 2 have "iter_capture_next g c = (Yield i, g', c')" by simp
  then have "pending g' < pending g"
    by (auto simp: iter_capture_next_def pending_def split: frame.splits dest!: it)
  then show ?case by simp
qed

declare consume.simps [simp del]

section \<open>Auxiliary facts\<close>

subsection \<open>Decimal strings are injective\<close>

lemma str_of_nat_nonempty: "str_of_nat n \<noteq> []"
  by (subst str_of_nat.simps) simp

lemma digit_char_inj: "a < 10 \<Longrightarrow> b < 10 \<Longrightarrow> digit_char a = digit_char b \<Longrightarrow> a = b"
proof -
  assume a: "a < 10" and b: "b < 10" and e: "digit_char a = digit_char b"
  from e have "of_char (char_of (48 + a) :: char) = (of_char (char_of (48 + b) :: char) :: nat)"
    by (simp add: digit_char_def)
  with a b show ?thesis by (simp add: of_char_of)
qed

lemma str_of_nat_inj: "str_of_nat m = str_of_nat n \<Longrightarrow> m = n"
proof (induction m arbitrary: n rule: str_of_nat.induct)
  case (1 m)
  show ?case
  proof (cases "m < 10")
    case True
    note m = this
    show ?thesis
    proof (cases "n < 10")
      case True
      with m 1(2) show ?thesis
        by (simp add: str_of_nat.simps [of m] str_of_nat.simps [of n] digit_char_inj)
    next
      case False
      with m 1(2) show ?thesis
        using str_of_nat_nonempty [of "n div 10"]
        by (simp add: str_of_nat.simps [of m] str_of_nat.simps [of n])
    qed
  next
    case False
    note m = this
    show ?thesis
    proof (cases "n < 10")
      case True
      with m 1(2) show ?thesis
        using str_of_nat_nonempty [of "m div 10"]
        by (simp add: str_of_nat.simps [of m] str_of_nat.simps [of n])
    next
      case False
      with m 1(2) have e: "str_of_nat (m div 10) = str_of_nat (n div 10)"
        and d: "digit_char (m mod 10) = digit_char (n mod 10)"
        by (simp_all add: str_of_nat.simps [of m] str_of_nat.simps [of n])
      from 1(1) [OF m e] have "m div 10 = n div 10" .
      moreover from d have "m mod 10 = n mod 10" by (simp add: digit_char_inj)
      ultimately show ?thesis by (metis div_mult_mod_eq)
    qed
  qed
qed

lemma str_of_int_inj_nonneg: "0 \<le> i \<Longrightarrow> 0 \<le> j \<Longrightarrow> str_of_int i = str_of_int j \<Longrightarrow> i = j"
  by (auto simp: str_of_int_def dest!: str_of_nat_inj)

subsection \<open>Entering and leaving a capture scope\<close>

lemma capture_enter_eq:
  "capture_enter c title selected kw =
     (Inr (Output (fresh c) kw),
      (let c1 = c\<lparr>children := children c @ [Output (fresh c) kw],
                   trace := trace c @ [SetAttr ''children''], fresh := Suc (fresh c)\<rparr>;
           c2 = (if truthy title then set_title c1 (int (length (children c))) title else c1);
           c3 = (if truthy selected
                 then c2\<lparr>trace := trace c2 @ [SetAttr ''selected_index''],
                         selected_index := Some (int (length (children c)))\<rparr>
                 else c2)
       in c3\<lparr>capturing := fresh c # capturing c\<rparr>))"
  by (simp add: capture_enter_def new_output_def append_item_def set_title_def
        set_selected_index_def validated_index_def output_enter_def Let_def)

lemma capture_kw_fst: "fst (capture_kw c kw) = Inr (Output (fresh c) (kw_rest kw))"
  by (simp add: capture_kw_def capture_enter_eq)

lemma capture_kw_children:
  "children (snd (capture_kw c kw)) = children c @ [Output (fresh c) (kw_rest kw)]"
  by (simp add: capture_kw_def capture_enter_eq set_title_def Let_def)

lemma capture_kw_fresh: "fresh (snd (capture_kw c kw)) = Suc (fresh c)"
  by (simp add: capture_kw_def capture_enter_eq set_title_def Let_def)

lemma capture_kw_capturing: "capturing (snd (capture_kw c kw)) = fresh c # capturing c"
  by (simp add: capture_kw_def capture_enter_eq set_title_def Let_def)

lemma str_of_int_below: "0 \<le> j \<Longrightarrow> j < int n \<Longrightarrow> str_of_int j \<noteq> str_of_int (int n)"
  using str_of_int_inj_nonneg [of j "int n"] by auto

lemma capture_kw_titles:
  "0 \<le> j \<Longrightarrow> j < int (length (children c)) \<Longrightarrow>
   titles (snd (capture_kw c kw)) (str_of_int j) = titles c (str_of_int j)"
  by (simp add: capture_kw_def capture_enter_eq set_title_def Let_def str_of_int_below)


lemma capture_exit_simps [simp]:
  "children (capture_exit out c) = children c"
  "fresh (capture_exit out c) = fresh c"
  "titles (capture_exit out c) = titles c"
  "selected_index (capture_exit out c) = selected_index c"
  "trace (capture_exit out c) = trace c"
  "capturing (capture_exit out c) = remove1 (widget_id out) (capturing c)"
  by (simp_all add: capture_exit_def output_exit_def)

lemma set_title_simps [simp]:
  "children (set_title c i t) = children c"
  "fresh (set_title c i t) = fresh c"
  "capturing (set_title c i t) = capturing c"
  "selected_index (set_title c i t) = selected_index c"
  "titles (set_title c i t) = (titles c)(str_of_int i \<mapsto> t)"
  by (simp_all add: set_title_def)

lemma iteration_item:
  assumes "upstream g = Inr x # rest" and "derive_title (title_arg g) x = Inr t"
  shows "iteration g c =
     (Yield x, g\<lparr>frame := Suspended (Output (fresh c) (kw_rest (kw_arg g))), upstream := rest\<rparr>,
      (let c1 = snd (capture_kw c (kw_arg g))
       in if truthy t then set_title c1 (int (length (children c))) t else c1))"
proof -
  obtain r c1 where p: "capture_kw c (kw_arg g) = (r, c1)" by (cases "capture_kw c (kw_arg g)")
  from capture_kw_fst [of c "kw_arg g"] p have r: "r = Inr (Output (fresh c) (kw_rest (kw_arg g)))"
    by simp
  from capture_kw_children [of c "kw_arg g"] p have "length (children c1) = Suc (length (children c))"
    by simp
  then show ?thesis using assms p r by (simp add: iteration_def)
qed

lemma iteration_end:
  assumes "upstream g = []"
  shows "iteration g c =
     (Stop, g\<lparr>upstream := [], frame := Finished\<rparr>,
      capture_exit (Output (fresh c) (kw_rest (kw_arg g))) (snd (capture_kw c (kw_arg g))))"
proof -
  obtain r c1 where p: "capture_kw c (kw_arg g) = (r, c1)" by (cases "capture_kw c (kw_arg g)")
  from capture_kw_fst [of c "kw_arg g"] p have r: "r = Inr (Output (fresh c) (kw_rest (kw_arg g)))"
    by simp
  show ?thesis using assms p r by (simp add: iteration_def handle_exn_def)
qed

subsection \<open>One pass and the whole loop\<close>

lemma next_live:
  "frame g \<noteq> Finished \<Longrightarrow>
   iter_capture_next g c =
     iteration g (case frame g of Suspended out \<Rightarrow> capture_exit out c | _ \<Rightarrow> c)"
  by (simp add: iter_capture_next_def split: frame.splits)

lemma consume_pure:
  assumes "frame g \<noteq> Finished"
    and "upstream g = map Inr xs"
    and "\<forall>x\<in>set xs. \<exists>t. derive_title (title_arg g) x = Inr t"
    and "consume g c = (ys, r, g', c')"
  shows "ys = xs \<and> r = Inr () \<and> frame g' = Finished \<and>
     children c' = children c @
        map (\<lambda>k. Output (fresh c + k) (kw_rest (kw_arg g))) [0..<Suc (length xs)] \<and>
     capturing c' = (case frame g of Suspended out \<Rightarrow> remove1 (widget_id out) (capturing c)
                     | _ \<Rightarrow> capturing c) \<and>
     (\<forall>j. 0 \<le> j \<and> j < int (length (children c)) \<longrightarrow>
          titles c' (str_of_int j) = titles c (str_of_int j)) \<and>
     (\<forall>k t. k < length xs \<and> derive_title (title_arg g) (xs ! k) = Inr t \<and> truthy t \<longrightarrow>
          titles c' (str_of_int (int (length (children c) + k))) = Some t)"
  using assms
proof (induction xs arbitrary: g c ys r g' c')
  case Nil
  let ?c0 = "case frame g of Suspended out \<Rightarrow> capture_exit out c | _ \<Rightarrow> c"
  have c0: "children ?c0 = children c" "fresh ?c0 = fresh c" "titles ?c0 = titles c"
    "capturing ?c0 = (case frame g of Suspended out \<Rightarrow> remove1 (widget_id out) (capturing c)
                     | _ \<Rightarrow> capturing c)"
    by (simp_all split: frame.splits)
  from Nil.prems(2) have up: "upstream g = []" by simp
  have "consume g c = ([], Inr (), g\<lparr>upstream := [], frame := Finished\<rparr>,
      capture_exit (Output (fresh ?c0) (kw_rest (kw_arg g))) (snd (capture_kw ?c0 (kw_arg g))))"
    by (subst consume.simps) (simp add: next_live [OF Nil.prems(1)] iteration_end [OF up])
  with Nil.prems(4) have ys: "ys = []" and r: "r = Inr ()" and g': "frame g' = Finished"
    and c': "c' = capture_exit (Output (fresh ?c0) (kw_rest (kw_arg g))) (snd (capture_kw ?c0 (kw_arg g)))"
    by auto
  show ?case
    using ys r g' c0
    by (simp add: c' capture_kw_children capture_kw_capturing capture_kw_titles)
next
  case (Cons x xs)
  let ?c0 = "case frame g of Suspended out \<Rightarrow> capture_exit out c | _ \<Rightarrow> c"
  let ?kw = "kw_rest (kw_arg g)"
  let ?out = "Output (fresh c) ?kw"
  have c0: "children ?c0 = children c" "fresh ?c0 = fresh c" "titles ?c0 = titles c"
    "capturing ?c0 = (case frame g of Suspended out \<Rightarrow> remove1 (widget_id out) (capturing c)
                     | _ \<Rightarrow> capturing c)"
    by (simp_all split: frame.splits)
  from Cons.prems(2) have up: "upstream g = Inr x # map Inr xs" by simp
  from Cons.prems(3) obtain t where t: "derive_title (title_arg g) x = Inr t" by auto
  let ?c1 = "snd (capture_kw ?c0 (kw_arg g))"
  let ?c2 = "if truthy t then set_title ?c1 (int (length (children c))) t else ?c1"
  let ?g1 = "g\<lparr>frame := Suspended ?out, upstream := map Inr xs\<rparr>"
  have step: "iter_capture_next g c = (Yield x, ?g1, ?c2)"
    using iteration_item [OF up t, of ?c0] c0 by (simp add: next_live [OF Cons.prems(1)] Let_def)
  obtain zs r1 g1 c1 where rest: "consume ?g1 ?c2 = (zs, r1, g1, c1)"
    by (metis prod_cases4)
  have "consume g c = (x # zs, r1, g1, c1)"
    by (subst consume.simps) (simp add: step rest)
  with Cons.prems(4) have eq: "ys = x # zs" "r = r1" "g' = g1" "c' = c1" by auto
  have ch2: "children ?c2 = children c @ [?out]" and fr2: "fresh ?c2 = Suc (fresh c)"
    and cap2: "capturing ?c2 = fresh c # capturing ?c0"
    using c0 by (simp_all add: capture_kw_children capture_kw_fresh capture_kw_capturing)
  have t2: "\<And>j. 0 \<le> j \<Longrightarrow> j < int (length (children c)) \<Longrightarrow>
      titles ?c2 (str_of_int j) = titles c (str_of_int j)"
    using c0 capture_kw_titles [of _ ?c0 "kw_arg g"] by (simp add: str_of_int_below)
  have t2': "truthy t \<Longrightarrow> titles ?c2 (str_of_int (int (length (children c)))) = Some t"
    by simp
  have ih: "zs = xs \<and> r1 = Inr () \<and> frame g1 = Finished \<and>
     children c1 = children ?c2 @
        map (\<lambda>k. Output (fresh ?c2 + k) (kw_rest (kw_arg ?g1))) [0..<Suc (length xs)] \<and>
     capturing c1 = (case frame ?g1 of Suspended out \<Rightarrow> remove1 (widget_id out) (capturing ?c2)
                     | _ \<Rightarrow> capturing ?c2) \<and>
     (\<forall>j. 0 \<le> j \<and> j < int (length (children ?c2)) \<longrightarrow>
          titles c1 (str_of_int j) = titles ?c2 (str_of_int j)) \<and>
     (\<forall>k t. k < length xs \<and> derive_title (title_arg ?g1) (xs ! k) = Inr t \<and> truthy t \<longrightarrow>
          titles c1 (str_of_int (int (length (children ?c2) + k))) = Some t)"
    using Cons.prems(3) by (intro Cons.IH [OF _ _ _ rest]) simp_all
  from ih have a: "zs = xs" "r1 = Inr ()" "frame g1 = Finished" by simp_all
  from ih have b: "children c1 = children ?c2 @
        map (\<lambda>k. Output (fresh ?c2 + k) ?kw) [0..<Suc (length xs)]" by simp
  have b': "children c1 = children c @
        map (\<lambda>k. Output (fresh c + k) ?kw) [0..<Suc (length (x # xs))]"
    unfolding b ch2 fr2 by (simp add: map_upt_Suc del: upt_Suc)
  from ih have "capturing c1 = remove1 (fresh c) (capturing ?c2)" by simp
  then have d: "capturing c1 = capturing ?c0" unfolding cap2 by simp
  from ih have e: "\<And>j. 0 \<le> j \<Longrightarrow> j < int (length (children ?c2)) \<Longrightarrow>
          titles c1 (str_of_int j) = titles ?c2 (str_of_int j)" by blast
  have e': "\<And>j. 0 \<le> j \<Longrightarrow> j < int (length (children c)) \<Longrightarrow>
          titles c1 (str_of_int j) = titles c (str_of_int j)"
    using e t2 unfolding ch2 by simp
  from ih have f: "\<And>k t. k < length xs \<Longrightarrow> derive_title (title_arg g) (xs ! k) = Inr t \<Longrightarrow>
       truthy t \<Longrightarrow> titles c1 (str_of_int (int (length (children ?c2) + k))) = Some t"
    by simp
  have f': "titles c1 (str_of_int (int (length (children c) + k))) = Some u"
    if "k < length (x # xs)" "derive_title (title_arg g) ((x # xs) ! k) = Inr u" "truthy u" for k u
  proof (cases k)
    case 0
    with that t have "u = t" by simp
    with that(3) t2' e [of "int (length (children c))"] 0 show ?thesis
      unfolding ch2 by simp
  next
    case (Suc k')
    with that f [of k' u] show ?thesis unfolding ch2 by simp
  qed
  show ?case
    unfolding eq using a b' d c0(4) e' f' by simp
qed

section \<open>The selected index\<close>

text \<open>
  Claim C1. For every selection container, the assignment \<^verbatim>\<open>selected_index = v\<close>
  succeeds if and only if \<open>v\<close> is \<^verbatim>\<open>None\<close> or \<open>0 \<le> v < len(children)\<close>. When it
  succeeds, reading \<^verbatim>\<open>selected_index\<close> gives \<open>v\<close>. When it fails, it raises the
  \<^verbatim>\<open>TraitError\<close> whose message says that the index is out of bounds, and the container,
  with it the value of \<^verbatim>\<open>selected_index\<close>, is as before.
\<close>

theorem selected_index_assignment:
  "(fst (set_selected_index c v) = Inr ()) =
      (v = None \<or> (\<exists>i. v = Some i \<and> 0 \<le> i \<and> i < int (length (children c)))) \<and>
   (fst (set_selected_index c v) = Inr () \<longrightarrow>
      selected_index (snd (set_selected_index c v)) = v) \<and>
   (fst (set_selected_index c v) \<noteq> Inr () \<longrightarrow>
      fst (set_selected_index c v) = Inl (TraitError ''Invalid selection: index out of bounds'') \<and>
      snd (set_selected_index c v) = c)"
  by (cases v) (simp_all add: set_selected_index_def validated_index_def)

theorem selected_index_assignment_witness:
  "fst (set_selected_index
      \<lparr>children = [Widget 0, Widget 1], trace = [], capturing = [], fresh = 2,
       titles = Map.empty, selected_index = Some 0\<rparr> (Some 1)) = Inr () \<and>
   selected_index (snd (set_selected_index
      \<lparr>children = [Widget 0, Widget 1], trace = [], capturing = [], fresh = 2,
       titles = Map.empty, selected_index = Some 0\<rparr> (Some 1))) = Some 1 \<and>
   fst (set_selected_index
      \<lparr>children = [Widget 0, Widget 1], trace = [], capturing = [], fresh = 2,
       titles = Map.empty, selected_index = Some 0\<rparr> (Some 2)) =
     Inl (TraitError ''Invalid selection: index out of bounds'') \<and>
   selected_index (snd (set_selected_index
      \<lparr>children = [Widget 0, Widget 1], trace = [], capturing = [], fresh = 2,
       titles = Map.empty, selected_index = Some 0\<rparr> (Some 2))) = Some 0"
  using
    selected_index_assignment [of
      "\<lparr>children = [Widget 0, Widget 1], trace = [], capturing = [], fresh = 2,
        titles = Map.empty, selected_index = Some 0\<rparr>" "Some 1"]
    selected_index_assignment [of
      "\<lparr>children = [Widget 0, Widget 1], trace = [], capturing = [], fresh = 2,
        titles = Map.empty, selected_index = Some 0\<rparr>" "Some 2"]
  by simp

section \<open>Titles\<close>



section \<open>Appending a child\<close>

text \<open>
  Claim C8. For every container and child, \<^verbatim>\<open>append_item\<close> (of \<^verbatim>\<open>Carousel\<close> and of
  \<^verbatim>\<open>_SelectionContainer\<close>) makes the children the old sequence followed by the new
  child: the length grows by exactly one, the sequence without its last element is the old
  sequence, and the change is one assignment of a whole new sequence to the attribute
  \<^verbatim>\<open>children\<close>, which is the first event of the call.
\<close>

theorem append_replaces_children:
  "children (carousel_append_item b child) = children b @ [child] \<and>
   length (children (carousel_append_item b child)) = length (children b) + 1 \<and>
   butlast (children (carousel_append_item b child)) = children b \<and>
   trace (carousel_append_item b child) = trace b @ [SetAttr ''children''] \<and>
   children (snd (append_item c child title selected)) = children c @ [child] \<and>
   length (children (snd (append_item c child title selected))) = length (children c) + 1 \<and>
   butlast (children (snd (append_item c child title selected))) = children c \<and>
   take (Suc (length (trace c))) (trace (snd (append_item c child title selected))) =
     trace c @ [SetAttr ''children'']"
  by (simp add: carousel_append_item_def append_item_def set_title_def set_selected_index_def
        validated_index_def Let_def)

theorem append_replaces_children_witness:
  "children (carousel_append_item
      \<lparr>children = [Widget 0], trace = [], capturing = [], fresh = 2\<rparr>
      (Widget 5)) = [Widget 0, Widget 5] \<and>
   children (snd (append_item
      \<lparr>children = [Widget 0], trace = [], capturing = [], fresh = 1,
       titles = Map.empty, selected_index = None\<rparr> (Widget 5) PNone PNone)) = [Widget 0, Widget 5]"
  using
    append_replaces_children [of
      "\<lparr>children = [Widget 0], trace = [], capturing = [], fresh = 2\<rparr>"
      "Widget 5"
      "\<lparr>children = [Widget 0], trace = [], capturing = [], fresh = 1,
        titles = Map.empty, selected_index = None\<rparr>" PNone PNone]
  by simp

text \<open>
  Claim C6. \<^verbatim>\<open>append_item(child, title, selected)\<close> of a selection container never
  raises. It appends the child first, then, if the title is truthy, stores it under the
  position of the new child and sends \<^verbatim>\<open>_titles\<close>, then, if \<^verbatim>\<open>selected\<close> is truthy,
  assigns that position to \<^verbatim>\<open>selected_index\<close>: the events come in this order. Afterwards
  the new child is the last one, a truthy title is the title of the last position and, with
  a truthy \<^verbatim>\<open>selected\<close>, the selected index is the last position. A falsy title leaves
  the titles as they were, a falsy \<^verbatim>\<open>selected\<close> leaves the selected index as it was.
\<close>

theorem append_item_order:
  assumes "append_item c child title selected = (r, c')"
  shows "r = Inr () \<and>
     children c' = children c @ [child] \<and>
     last (children c') = child \<and>
     (truthy title \<longrightarrow> get_title c' (int (length (children c')) - 1) = title) \<and>
     (\<not> truthy title \<longrightarrow> titles c' = titles c) \<and>
     (truthy selected \<longrightarrow> selected_index c' = Some (int (length (children c')) - 1)) \<and>
     (\<not> truthy selected \<longrightarrow> selected_index c' = selected_index c) \<and>
     trace c' = trace c @ [SetAttr ''children''] @
        (if truthy title then [SendState ''_titles''] else []) @
        (if truthy selected then [SetAttr ''selected_index''] else [])"
  using assms
  by (auto simp: append_item_def set_title_def set_selected_index_def validated_index_def
        get_title_def Let_def split: if_splits)

theorem append_item_order_witness:
  "append_item
      \<lparr>children = [Widget 0, Widget 1], trace = [], capturing = [], fresh = 3,
       titles = Map.empty, selected_index = None\<rparr> (Widget 2) (PStr ''X'') (PBool True) =
     (Inr (),
      \<lparr>children = [Widget 0, Widget 1, Widget 2],
       trace = [SetAttr ''children'', SendState ''_titles'', SetAttr ''selected_index''],
       capturing = [], fresh = 3,
       titles = [''2'' \<mapsto> PStr ''X''], selected_index = Some 2\<rparr>) \<and>
   get_title (snd (append_item
      \<lparr>children = [Widget 0, Widget 1], trace = [], capturing = [], fresh = 3,
       titles = Map.empty, selected_index = None\<rparr> (Widget 2) (PStr ''X'') (PBool True))) 2 = PStr ''X''"
proof -
  let ?c = "\<lparr>children = [Widget 0, Widget 1], trace = [], capturing = [], fresh = 3,
       titles = Map.empty, selected_index = None\<rparr>"
  have s: "str_of_int 2 = ''2''" by code_simp
  have e: "append_item ?c (Widget 2) (PStr ''X'') (PBool True) =
     (Inr (),
      \<lparr>children = [Widget 0, Widget 1, Widget 2],
       trace = [SetAttr ''children'', SendState ''_titles'', SetAttr ''selected_index''],
       capturing = [], fresh = 3,
       titles = [''2'' \<mapsto> PStr ''X''], selected_index = Some 2\<rparr>)"
    by (simp add: append_item_def set_title_def set_selected_index_def validated_index_def s)
  from append_item_order [OF e] have "get_title
      \<lparr>children = [Widget 0, Widget 1, Widget 2],
       trace = [SetAttr ''children'', SendState ''_titles'', SetAttr ''selected_index''],
       capturing = [], fresh = 3,
       titles = [''2'' \<mapsto> PStr ''X''], selected_index = Some 2\<rparr> 2 = PStr ''X''"
    by simp
  with e show ?thesis by simp
qed

section \<open>Capture scopes\<close>

lemma with_capture_eq:
  "with_capture c title selected kw body =
     (fst (body (Output (fresh c) kw) (snd (capture_enter c title selected kw))),
      capture_exit (Output (fresh c) kw)
        (snd (body (Output (fresh c) kw) (snd (capture_enter c title selected kw)))))"
  by (simp add: with_capture_def capture_enter_eq split_beta Let_def)

lemma capture_enter_children:
  "children (snd (capture_enter c title selected kw)) = children c @ [Output (fresh c) kw]"
  by (simp add: capture_enter_eq Let_def)

lemma capture_enter_capturing:
  "capturing (snd (capture_enter c title selected kw)) = fresh c # capturing c"
  by (simp add: capture_enter_eq Let_def)

lemma capture_enter_title:
  "truthy title \<Longrightarrow>
   titles (snd (capture_enter c title selected kw)) (str_of_int (int (length (children c)))) =
     Some title"
  by (simp add: capture_enter_eq Let_def)

text \<open>
  Claim C4. A selection container has two children, and \<^verbatim>\<open>capture(title="out")\<close> is
  used as a \<^verbatim>\<open>with\<close> block whose body raises \<open>e\<close> (the body may do anything that
  leaves the children, the titles and the output redirections alone). When the body
  starts, the new output widget is already the third child, its title is \<^verbatim>\<open>"out"\<close> and
  output is redirected into it. The block ends by raising \<open>e\<close>; afterwards the container
  has three children, the third is the new output widget and is titled \<^verbatim>\<open>"out"\<close>, and the
  redirections are the ones from before the block. On every exit path, of any body
  \<open>body'\<close>, returning or raising, leaving the block removes the redirection into the new
  widget.
\<close>

theorem capture_raising_body:
  fixes body body' :: "widget \<Rightarrow> selection_container \<Rightarrow> ('a, selection_container) result"
  assumes len: "length (children c) = 2"
    and enter: "capture_enter c (PStr ''out'') PNone kw = (r1, c1)"
    and raises: "body (Output (fresh c) kw) c1 = (Inl e, c2)"
    and same: "children c2 = children c1" "titles c2 = titles c1" "capturing c2 = capturing c1"
    and exit: "with_capture c (PStr ''out'') PNone kw body = (r, c')"
  shows "r1 = Inr (Output (fresh c) kw) \<and>
     length (children c1) = 3 \<and> get_title c1 2 = PStr ''out'' \<and>
     capturing c1 = fresh c # capturing c \<and>
     r = Inl e \<and>
     length (children c') = 3 \<and> children c' ! 2 = Output (fresh c) kw \<and>
     get_title c' 2 = PStr ''out'' \<and>
     capturing c' = capturing c \<and>
     capturing (snd (with_capture c (PStr ''out'') PNone kw body')) =
       remove1 (fresh c) (capturing (snd (body' (Output (fresh c) kw) c1)))"
proof -
  from enter have r1: "r1 = Inr (Output (fresh c) kw)"
    and c1: "c1 = snd (capture_enter c (PStr ''out'') PNone kw)"
    by (simp_all add: capture_enter_eq)
  have ch1: "children c1 = children c @ [Output (fresh c) kw]"
    unfolding c1 by (rule capture_enter_children)
  have cap1: "capturing c1 = fresh c # capturing c"
    unfolding c1 by (rule capture_enter_capturing)
  from len have "titles c1 (str_of_int 2) = Some (PStr ''out'')"
    unfolding c1 using capture_enter_title [of "PStr ''out''" c PNone kw] by simp
  then have t1: "get_title c1 2 = PStr ''out''" by (simp add: get_title_def)
  from exit raises have r: "r = Inl e" and c': "c' = capture_exit (Output (fresh c) kw) c2"
    by (simp_all add: with_capture_eq c1 [symmetric])
  have rel: "capturing (snd (with_capture c (PStr ''out'') PNone kw body')) =
       remove1 (fresh c) (capturing (snd (body' (Output (fresh c) kw) c1)))"
    by (simp add: with_capture_eq c1 [symmetric])
  from t1 same have t2: "get_title c' 2 = PStr ''out''"
    by (simp add: c' get_title_def)
  show ?thesis
    using r1 len ch1 cap1 t1 r t2 same rel by (simp add: c' nth_append)
qed

theorem capture_raising_body_witness:
  "with_capture
      \<lparr>children = [Widget 3, Widget 4], trace = [], capturing = [], fresh = 5,
       titles = Map.empty, selected_index = None\<rparr> (PStr ''out'') PNone []
      (\<lambda>out s. (Inl (OtherError ''boom'') :: exn + unit, s)) =
     (Inl (OtherError ''boom''),
      \<lparr>children = [Widget 3, Widget 4, Output 5 []],
       trace = [SetAttr ''children'', SendState ''_titles''], capturing = [], fresh = 6,
       titles = [''2'' \<mapsto> PStr ''out''], selected_index = None\<rparr>) \<and>
   get_title
      \<lparr>children = [Widget 3, Widget 4, Output 5 []],
       trace = [SetAttr ''children'', SendState ''_titles''], capturing = [], fresh = 6,
       titles = [''2'' \<mapsto> PStr ''out''], selected_index = None\<rparr> 2 = PStr ''out''"
proof -
  let ?c = "\<lparr>children = [Widget 3, Widget 4], trace = [], capturing = [], fresh = 5,
       titles = Map.empty, selected_index = None\<rparr>"
  let ?c1 = "\<lparr>children = [Widget 3, Widget 4, Output 5 []],
       trace = [SetAttr ''children'', SendState ''_titles''], capturing = [5], fresh = 6,
       titles = [''2'' \<mapsto> PStr ''out''], selected_index = None\<rparr>"
  let ?c' = "\<lparr>children = [Widget 3, Widget 4, Output 5 []],
       trace = [SetAttr ''children'', SendState ''_titles''], capturing = [], fresh = 6,
       titles = [''2'' \<mapsto> PStr ''out''], selected_index = None\<rparr>"
  let ?body = "\<lambda>(out :: widget) (s :: selection_container). (Inl (OtherError ''boom'') :: exn + unit, s)"
  have s: "str_of_int 2 = ''2''" by code_simp
  have len: "length (children ?c) = 2" by simp
  have enter: "capture_enter ?c (PStr ''out'') PNone [] = (Inr (Output 5 []), ?c1)"
    by (simp add: capture_enter_def new_output_def append_item_def set_title_def
          output_enter_def s)
  have raises: "?body (Output (fresh ?c) []) ?c1 = (Inl (OtherError ''boom''), ?c1)" by simp
  have exit: "with_capture ?c (PStr ''out'') PNone [] ?body = (Inl (OtherError ''boom''), ?c')"
    by (simp add: with_capture_def enter capture_exit_def output_exit_def)
  from capture_raising_body [OF len enter raises refl refl refl exit]
  have "get_title ?c' 2 = PStr ''out''" by simp
  with exit show ?thesis by simp
qed

text \<open>
  Claim C5. \<^verbatim>\<open>Carousel.capture()\<close>, when no layout is given, should create the new
  output widget with the carousel's default output layout and append it to the children
  before the body of the block runs. The code does not get there. The class body builds
  both layouts with \<^verbatim>\<open>w.Layout(...)\<close>, and no name \<^verbatim>\<open>w\<close> is bound in
  \<^verbatim>\<open>widget_box.py\<close>: the class body raises \<^verbatim>\<open>NameError\<close>, no default output layout
  is ever built, and \<^verbatim>\<open>with carousel.capture(): ...\<close> with no layout, on an empty
  carousel, ends with that \<^verbatim>\<open>NameError\<close>: no child is created or appended and the body
  does not run.
\<close>

theorem carousel_capture_name_error:
  "carousel_class_body = Inl (NameError ''w'') \<and>
   carousel_capture_enter \<lparr>children = [], trace = [], capturing = [], fresh = 0\<rparr> [] =
     (Inl (NameError ''w''), \<lparr>children = [], trace = [], capturing = [], fresh = 0\<rparr>) \<and>
   carousel_with_capture \<lparr>children = [], trace = [], capturing = [], fresh = 0\<rparr> []
       (\<lambda>out s. (Inr (), s)) =
     (Inl (NameError ''w''), \<lparr>children = [], trace = [], capturing = [], fresh = 0\<rparr>)"
proof -
  have b: "carousel_class_body = Inl (NameError ''w'')"
    by (simp add: carousel_class_body_def load_global_def widget_box_globals_def)
  show ?thesis
    by (simp add: b carousel_capture_enter_def carousel_with_capture_def)
qed

section \<open>The capturing iterator\<close>

lemma iteration_raise_upstream:
  assumes "upstream g = Inl e # rest"
  shows "iteration g c =
     handle_exn (Output (fresh c) (kw_rest (kw_arg g))) e (g\<lparr>upstream := []\<rparr>)
       (snd (capture_kw c (kw_arg g)))"
proof -
  obtain r c1 where p: "capture_kw c (kw_arg g) = (r, c1)" by (cases "capture_kw c (kw_arg g)")
  from capture_kw_fst [of c "kw_arg g"] p have r: "r = Inr (Output (fresh c) (kw_rest (kw_arg g)))"
    by simp
  show ?thesis using assms p r by (simp add: iteration_def)
qed

lemma iteration_raise_title:
  assumes "upstream g = Inr i # rest" and "derive_title (title_arg g) i = Inl e"
  shows "iteration g c =
     handle_exn (Output (fresh c) (kw_rest (kw_arg g))) e (g\<lparr>upstream := rest\<rparr>)
       (snd (capture_kw c (kw_arg g)))"
proof -
  obtain r c1 where p: "capture_kw c (kw_arg g) = (r, c1)" by (cases "capture_kw c (kw_arg g)")
  from capture_kw_fst [of c "kw_arg g"] p have r: "r = Inr (Output (fresh c) (kw_rest (kw_arg g)))"
    by simp
  show ?thesis using assms p r by (simp add: iteration_def)
qed

lemma handle_exn_fst:
  "fst (handle_exn out e g c) =
     (if e = StopIteration \<or> e = KeyboardInterrupt then Stop else Raise e)"
  "frame (fst (snd (handle_exn out e g c))) = Finished"
  by (simp_all add: handle_exn_def)

text \<open>
  Claim C2, as the specification states it: in \<^verbatim>\<open>iter_capture\<close> the title of an item
  is derived and set only after the caller's body for that item is over, so that during the
  body the new child has no title yet. This fails: with the items \<^verbatim>\<open>[10]\<close> and
  \<^verbatim>\<open>as_title=lambda x: f"n{x}"\<close> on an empty container, at the moment the generator
  yields \<open>10\<close>, which is when the caller's body runs, the title of the new child at
  position 0 is already \<^verbatim>\<open>"n10"\<close>.
\<close>

theorem title_before_yield_counterexample:
  "fst (iter_capture_next
      (iter_capture [Inr (PInt 10)] (AsCallable (\<lambda>x. Inr (PStr (''n'' @ py_str x)))) [])
      \<lparr>children = [], trace = [], capturing = [], fresh = 0,
       titles = Map.empty, selected_index = None\<rparr>) = Yield (PInt 10) \<and>
   get_title (snd (snd (iter_capture_next
      (iter_capture [Inr (PInt 10)] (AsCallable (\<lambda>x. Inr (PStr (''n'' @ py_str x)))) [])
      \<lparr>children = [], trace = [], capturing = [], fresh = 0,
       titles = Map.empty, selected_index = None\<rparr>))) 0 = PStr ''n10'' \<and>
   get_title (snd (snd (iter_capture_next
      (iter_capture [Inr (PInt 10)] (AsCallable (\<lambda>x. Inr (PStr (''n'' @ py_str x)))) [])
      \<lparr>children = [], trace = [], capturing = [], fresh = 0,
       titles = Map.empty, selected_index = None\<rparr>))) 0 \<noteq> PNone"
proof -
  have s: "str_of_int 10 = ''10''" by code_simp
  show ?thesis
    by (simp add: iter_capture_next_def iter_capture_def iteration_def capture_kw_def
          capture_enter_eq kw_get_def kw_rest_def get_title_def s Let_def)
qed

text \<open>
  Claim C2, amended: for each upstream item the title is derived and, when it is truthy,
  set before the generator yields the item. When \<^verbatim>\<open>next\<close> returns the item, the new
  output widget is the last child, the generator is suspended inside its capture scope,
  and the title at the position of the new child is the derived title: the caller's body
  runs with the title already set.
\<close>

theorem title_set_before_yield:
  assumes "frame g \<noteq> Finished"
    and "upstream g = Inr i # rest"
    and "derive_title (title_arg g) i = Inr t"
    and "truthy t"
    and "iter_capture_next g c = (r, g', c')"
  shows "r = Yield i \<and>
     frame g' = Suspended (Output (fresh c) (kw_rest (kw_arg g))) \<and>
     children c' = children c @ [Output (fresh c) (kw_rest (kw_arg g))] \<and>
     get_title c' (int (length (children c')) - 1) = t"
proof -
  let ?c0 = "case frame g of Suspended out \<Rightarrow> capture_exit out c | _ \<Rightarrow> c"
  have c0: "children ?c0 = children c" "fresh ?c0 = fresh c"
    by (simp_all split: frame.splits)
  from assms(5) iteration_item [OF assms(2,3), of ?c0] assms(4) c0
  have r: "r = Yield i"
    and g': "g' = g\<lparr>frame := Suspended (Output (fresh c) (kw_rest (kw_arg g))), upstream := rest\<rparr>"
    and c': "c' = set_title (snd (capture_kw ?c0 (kw_arg g))) (int (length (children c))) t"
    by (simp_all add: next_live [OF assms(1)])
  show ?thesis
    using c0 by (simp add: r g' c' capture_kw_children get_title_def)
qed

theorem title_set_before_yield_witness:
  "iter_capture_next
      (iter_capture [Inr (PInt 10)] (AsValue (PBool True)) [])
      \<lparr>children = [], trace = [], capturing = [], fresh = 0,
       titles = Map.empty, selected_index = None\<rparr> =
     (Yield (PInt 10),
      \<lparr>frame = Suspended (Output 0 []), upstream = [], title_arg = AsValue (PBool True),
       kw_arg = []\<rparr>,
      \<lparr>children = [Output 0 []], trace = [SetAttr ''children'', SendState ''_titles''],
       capturing = [0], fresh = Suc 0,
       titles = [''0'' \<mapsto> PInt 10], selected_index = None\<rparr>) \<and>
   get_title
      \<lparr>children = [Output 0 []], trace = [SetAttr ''children'', SendState ''_titles''],
       capturing = [0], fresh = Suc 0,
       titles = [''0'' \<mapsto> PInt 10], selected_index = None\<rparr> 0 = PInt 10"
proof -
  let ?g = "iter_capture [Inr (PInt 10)] (AsValue (PBool True)) []"
  let ?c = "\<lparr>children = [], trace = [], capturing = [], fresh = 0,
       titles = Map.empty, selected_index = None\<rparr>"
  let ?c' = "\<lparr>children = [Output 0 []], trace = [SetAttr ''children'', SendState ''_titles''],
       capturing = [0], fresh = Suc 0,
       titles = [''0'' \<mapsto> PInt 10], selected_index = None\<rparr>"
  have s: "str_of_int 0 = ''0''" by code_simp
  have live: "frame ?g \<noteq> Finished" by (simp add: iter_capture_def)
  have up: "upstream ?g = Inr (PInt 10) # []" by (simp add: iter_capture_def)
  have ti: "derive_title (title_arg ?g) (PInt 10) = Inr (PInt 10)" by (simp add: iter_capture_def)
  have tr: "truthy (PInt 10)" by simp
  have step: "iter_capture_next ?g ?c =
     (Yield (PInt 10),
      \<lparr>frame = Suspended (Output 0 []), upstream = [], title_arg = AsValue (PBool True),
       kw_arg = []\<rparr>, ?c')"
    by (simp add: iter_capture_next_def iter_capture_def iteration_def capture_kw_def
          capture_enter_eq kw_get_def kw_rest_def set_title_def s Let_def)
  from title_set_before_yield [OF live up ti tr step]
  have "get_title ?c' 0 = PInt 10" by simp
  with step show ?thesis by simp
qed

lemma iter_capture_fields [simp]:
  "frame (iter_capture items a kw) = Created"
  "upstream (iter_capture items a kw) = items"
  "title_arg (iter_capture items a kw) = a"
  "kw_arg (iter_capture items a kw) = kw"
  by (simp_all add: iter_capture_def)

text \<open>
  Claim C3. For every finite upstream sequence of \<open>n\<close> items (\<open>n \<ge> 0\<close>, and
  \<^verbatim>\<open>as_title\<close> raising on none of them), consuming \<^verbatim>\<open>iter_capture\<close> to its end yields
  the \<open>n\<close> items in order, ends normally and appends exactly \<open>n + 1\<close> new output
  widgets to the children: one for each item, and a last one appended by the capture scope
  of the pass in which the upstream turns out to be exhausted. That last pass, for any
  generator \<open>h\<close> that is not finished and whose upstream is empty, appends the child
  and then ends the stream, because the scope is entered before \<^verbatim>\<open>next(items)\<close> is
  called.
\<close>

theorem iter_capture_appends_one_more:
  assumes "\<forall>x\<in>set xs. \<exists>t. derive_title a x = Inr t"
    and "consume (iter_capture (map Inr xs) a kw) c = (ys, r, g', c')"
  shows "ys = xs \<and> r = Inr () \<and> frame g' = Finished \<and>
     length (children c') = length (children c) + (length xs + 1) \<and>
     children c' = children c @ map (\<lambda>k. Output (fresh c + k) (kw_rest kw)) [0..<length xs + 1] \<and>
     (frame h \<noteq> Finished \<and> upstream h = [] \<longrightarrow>
        fst (iter_capture_next h d) = Stop \<and>
        children (snd (snd (iter_capture_next h d))) =
          children d @ [Output (fresh d) (kw_rest (kw_arg h))])"
proof -
  from consume_pure [of "iter_capture (map Inr xs) a kw" xs c ys r g' c'] assms
  have a: "ys = xs" "r = Inr ()" "frame g' = Finished"
    and b: "children c' = children c @
        map (\<lambda>k. Output (fresh c + k) (kw_rest kw)) [0..<Suc (length xs)]"
    by simp_all
  have e: "fst (iter_capture_next h d) = Stop \<and>
        children (snd (snd (iter_capture_next h d))) =
          children d @ [Output (fresh d) (kw_rest (kw_arg h))]"
    if "frame h \<noteq> Finished" "upstream h = []"
  proof -
    let ?d0 = "case frame h of Suspended out \<Rightarrow> capture_exit out d | _ \<Rightarrow> d"
    have d0: "children ?d0 = children d" "fresh ?d0 = fresh d"
      by (simp_all split: frame.splits)
    show ?thesis
      using d0 by (simp add: next_live [OF that(1)] iteration_end [OF that(2)] capture_kw_children)
  qed
  have len: "length (children c') = length (children c) + (length xs + 1)"
    unfolding b by simp
  from a b len e show ?thesis by simp
qed

theorem iter_capture_appends_one_more_witness:
  "consume (iter_capture (map Inr [PInt 10, PInt 20]) (AsValue (PBool True)) [])
      \<lparr>children = [Widget 7], trace = [], capturing = [], fresh = 8,
       titles = Map.empty, selected_index = None\<rparr> =
     ([PInt 10, PInt 20], Inr (),
      fst (snd (snd (consume (iter_capture (map Inr [PInt 10, PInt 20]) (AsValue (PBool True)) [])
        \<lparr>children = [Widget 7], trace = [], capturing = [], fresh = 8,
         titles = Map.empty, selected_index = None\<rparr>))),
      snd (snd (snd (consume (iter_capture (map Inr [PInt 10, PInt 20]) (AsValue (PBool True)) [])
        \<lparr>children = [Widget 7], trace = [], capturing = [], fresh = 8,
         titles = Map.empty, selected_index = None\<rparr>)))) \<and>
   children (snd (snd (snd (consume
        (iter_capture (map Inr [PInt 10, PInt 20]) (AsValue (PBool True)) [])
        \<lparr>children = [Widget 7], trace = [], capturing = [], fresh = 8,
         titles = Map.empty, selected_index = None\<rparr>)))) =
     [Widget 7, Output 8 [], Output 9 [], Output 10 []]"
proof -
  let ?c = "\<lparr>children = [Widget 7], trace = [], capturing = [], fresh = 8,
       titles = Map.empty, selected_index = None\<rparr>"
  let ?r = "consume (iter_capture (map Inr [PInt 10, PInt 20]) (AsValue (PBool True)) []) ?c"
  have h: "\<forall>x\<in>set [PInt 10, PInt 20]. \<exists>t. derive_title (AsValue (PBool True)) x = Inr t"
    by simp
  have p: "?r = (fst ?r, fst (snd ?r), fst (snd (snd ?r)), snd (snd (snd ?r)))" by simp
  have u: "[0..<length [PInt 10, PInt 20] + 1] = [0, 1, 2]" by (simp add: upt_rec)
  from iter_capture_appends_one_more [OF h p]
  show ?thesis unfolding u by (simp add: kw_rest_def prod_eq_iff)
qed






text \<open>
  Claim C10. Let the generator of \<^verbatim>\<open>iter_capture\<close> be not yet finished. A
  \<^verbatim>\<open>KeyboardInterrupt\<close> thrown into it where it is suspended (from the caller's body),
  or raised by the upstream iterator or by \<^verbatim>\<open>as_title\<close>, ends the stream: the caller
  sees the normal end, not the interrupt, and the generator is finished. The stream also
  ends normally when the upstream is exhausted, and a finished generator stays at the end.
  Any exception \<open>e\<close> other than these two signals (\<^verbatim>\<open>KeyboardInterrupt\<close> and
  \<^verbatim>\<open>StopIteration\<close>, the exhaustion signal), thrown in or raised in the capture scope,
  comes out of the generator to the caller.
\<close>

theorem iter_capture_signals:
  assumes "frame g \<noteq> Finished"
  shows
    "(frame g = Suspended out \<longrightarrow>
        iter_capture_throw g KeyboardInterrupt c =
          (Stop, g\<lparr>frame := Finished\<rparr>, capture_exit out c)) \<and>
     (upstream g = Inl KeyboardInterrupt # rest \<longrightarrow>
        fst (iter_capture_next g c) = Stop \<and>
        frame (fst (snd (iter_capture_next g c))) = Finished) \<and>
     (upstream g = Inr i # rest \<and> derive_title (title_arg g) i = Inl KeyboardInterrupt \<longrightarrow>
        fst (iter_capture_next g c) = Stop \<and>
        frame (fst (snd (iter_capture_next g c))) = Finished) \<and>
     (upstream g = [] \<longrightarrow>
        fst (iter_capture_next g c) = Stop \<and>
        frame (fst (snd (iter_capture_next g c))) = Finished) \<and>
     (e \<noteq> KeyboardInterrupt \<and> e \<noteq> StopIteration \<longrightarrow>
        (frame g = Suspended out \<longrightarrow>
           iter_capture_throw g e c = (Raise e, g\<lparr>frame := Finished\<rparr>, capture_exit out c)) \<and>
        (upstream g = Inl e # rest \<longrightarrow>
           fst (iter_capture_next g c) = Raise e \<and>
           frame (fst (snd (iter_capture_next g c))) = Finished) \<and>
        (upstream g = Inr i # rest \<and> derive_title (title_arg g) i = Inl e \<longrightarrow>
           fst (iter_capture_next g c) = Raise e \<and>
           frame (fst (snd (iter_capture_next g c))) = Finished)) \<and>
     (frame h = Finished \<longrightarrow> iter_capture_next h c = (Stop, h, c))"
proof -
  note nl = next_live [OF assms]
  have throw: "iter_capture_throw g x c =
      ((if x = StopIteration \<or> x = KeyboardInterrupt then Stop else Raise x),
       g\<lparr>frame := Finished\<rparr>, capture_exit out c)"
    if "frame g = Suspended out" for x
    using that by (simp add: iter_capture_throw_def handle_exn_def)
  have up: "fst (iter_capture_next g c) =
        (if x = StopIteration \<or> x = KeyboardInterrupt then Stop else Raise x) \<and>
      frame (fst (snd (iter_capture_next g c))) = Finished"
    if "upstream g = Inl x # rest" for x
    by (simp add: nl iteration_raise_upstream [OF that] handle_exn_fst)
  have ti: "fst (iter_capture_next g c) =
        (if x = StopIteration \<or> x = KeyboardInterrupt then Stop else Raise x) \<and>
      frame (fst (snd (iter_capture_next g c))) = Finished"
    if "upstream g = Inr i # rest" "derive_title (title_arg g) i = Inl x" for x
    by (simp add: nl iteration_raise_title [OF that] handle_exn_fst)
  have en: "fst (iter_capture_next g c) = Stop \<and>
      frame (fst (snd (iter_capture_next g c))) = Finished"
    if "upstream g = []"
    by (simp add: nl iteration_end [OF that])
  have fin: "iter_capture_next h c = (Stop, h, c)" if "frame h = Finished"
    using that by (simp add: iter_capture_next_def)
  show ?thesis
    using throw [of KeyboardInterrupt] throw [of e] up [of KeyboardInterrupt] up [of e]
      ti [of KeyboardInterrupt] ti [of e] en fin
    by simp
qed

theorem iter_capture_signals_witness:
  "iter_capture_throw
      \<lparr>frame = Suspended (Output 5 []), upstream = [Inr (PInt 20)],
       title_arg = AsValue PNone, kw_arg = []\<rparr> KeyboardInterrupt
      \<lparr>children = [Output 5 []], trace = [], capturing = [5], fresh = 6,
       titles = Map.empty, selected_index = None\<rparr> =
     (Stop,
      \<lparr>frame = Finished, upstream = [Inr (PInt 20)], title_arg = AsValue PNone, kw_arg = []\<rparr>,
      \<lparr>children = [Output 5 []], trace = [], capturing = [], fresh = 6,
       titles = Map.empty, selected_index = None\<rparr>) \<and>
   iter_capture_throw
      \<lparr>frame = Suspended (Output 5 []), upstream = [Inr (PInt 20)],
       title_arg = AsValue PNone, kw_arg = []\<rparr> (OtherError ''boom'')
      \<lparr>children = [Output 5 []], trace = [], capturing = [5], fresh = 6,
       titles = Map.empty, selected_index = None\<rparr> =
     (Raise (OtherError ''boom''),
      \<lparr>frame = Finished, upstream = [Inr (PInt 20)], title_arg = AsValue PNone, kw_arg = []\<rparr>,
      \<lparr>children = [Output 5 []], trace = [], capturing = [], fresh = 6,
       titles = Map.empty, selected_index = None\<rparr>) \<and>
   fst (iter_capture_next
      \<lparr>frame = Suspended (Output 5 []), upstream = [],
       title_arg = AsValue PNone, kw_arg = []\<rparr>
      \<lparr>children = [Output 5 []], trace = [], capturing = [5], fresh = 6,
       titles = Map.empty, selected_index = None\<rparr>) = Stop \<and>
   fst (iter_capture_next
      \<lparr>frame = Created, upstream = [Inl (OtherError ''boom'')],
       title_arg = AsValue PNone, kw_arg = []\<rparr>
      \<lparr>children = [Output 5 []], trace = [], capturing = [5], fresh = 6,
       titles = Map.empty, selected_index = None\<rparr>) = Raise (OtherError ''boom'')"
proof -
  let ?c = "\<lparr>children = [Output 5 []], trace = [], capturing = [5], fresh = 6,
       titles = Map.empty, selected_index = None\<rparr>"
  let ?g = "\<lparr>frame = Suspended (Output 5 []), upstream = [Inr (PInt 20)],
       title_arg = AsValue PNone, kw_arg = []\<rparr>"
  let ?ga = "\<lparr>frame = Suspended (Output 5 []), upstream = [],
       title_arg = AsValue PNone, kw_arg = []\<rparr>"
  let ?gb = "\<lparr>frame = Created, upstream = [Inl (OtherError ''boom'')],
       title_arg = AsValue PNone, kw_arg = []\<rparr>"
  let ?e = "OtherError ''boom''"
  have l: "frame ?g \<noteq> Finished" "frame ?ga \<noteq> Finished" "frame ?gb \<noteq> Finished" by simp_all
  have x: "capture_exit (Output 5 []) ?c =
      \<lparr>children = [Output 5 []], trace = [], capturing = [], fresh = 6,
       titles = Map.empty, selected_index = None\<rparr>"
    by (simp add: capture_exit_def output_exit_def)
  from iter_capture_signals [OF l(1), where out = "Output 5 []" and e = ?e
      and c = ?c and rest = "[]" and i = "PInt 20" and h = ?g]
  have a: "iter_capture_throw ?g KeyboardInterrupt ?c = (Stop, ?g\<lparr>frame := Finished\<rparr>,
        capture_exit (Output 5 []) ?c)"
    and b: "iter_capture_throw ?g ?e ?c = (Raise ?e, ?g\<lparr>frame := Finished\<rparr>,
        capture_exit (Output 5 []) ?c)"
    by simp_all
  from iter_capture_signals [OF l(2), where out = "Output 5 []" and e = ?e
      and c = ?c and rest = "[]" and i = "PInt 20" and h = ?g]
  have c: "fst (iter_capture_next ?ga ?c) = Stop" by simp
  from iter_capture_signals [OF l(3), where out = "Output 5 []" and e = ?e
      and c = ?c and rest = "[]" and i = "PInt 20" and h = ?g]
  have d: "fst (iter_capture_next ?gb ?c) = Raise ?e" by simp
  from a b c d show ?thesis
    by (simp add: x)
qed

end
